theory Spec2Isabelle
  imports Complex_Main "HOL-Library.Sublist"
begin

section \<open>Data model of sketch.js\<close>

text \<open>
  The sketch keeps three globals (\<open>loading\<close>, \<open>errMsg\<close>, \<open>items\<close>), reads the p5 globals
  \<open>width\<close> and \<open>height\<close> set by \<open>createCanvas\<close>, and writes the text of the DOM element
  \<open>status\<close>. JavaScript numbers are modelled as exact rationals: the layout arithmetic is
  carried out without rounding, where the sketch computes in IEEE doubles.
\<close>

text \<open>The value of the field \<open>objectID\<close> of a response: \<open>undefined\<close> when the response
  has no such field, \<open>null\<close>, or a number.\<close>

datatype id_value = Id_undefined | Id_null | Id_number nat

text \<open>The object returned by \<open>fetchObject\<close>. \<open>objectID\<close> is copied from the response as
  it is.\<close>

record detail_record =
  objectID :: id_value
  title :: string
  artist :: string
  date :: string
  imageUrl :: string

text \<open>An element of \<open>items\<close>: the record spread, plus \<open>img\<close> (\<open>None\<close> is JavaScript's
  \<open>null\<close>) and the four numbers \<open>x\<close>, \<open>y\<close>, \<open>w\<close>, \<open>h\<close>.\<close>

record 'img item = detail_record +
  img :: "'img option"
  item_x :: rat
  item_y :: rat
  item_w :: rat
  item_h :: rat

record 'img sketch =
  loading :: bool
  errMsg :: "string option"
  items :: "'img item list"
  width :: rat
  height :: rat
  statusEl :: "string option"

definition MAX_ITEMS :: nat where "MAX_ITEMS = 18"
definition GRID_COLS :: nat where "GRID_COLS = 6"
definition PAD :: rat where "PAD = 20"
definition GAP :: rat where "GAP = 10"

section \<open>layoutGrid\<close>

text \<open>The \<open>for\<close> loop of \<open>layoutGrid\<close>: it writes \<open>x\<close>, \<open>y\<close>, \<open>w\<close>, \<open>h\<close> of \<open>items[i]\<close> for
  \<open>i\<close> from the start index up to \<open>items.length - 1\<close>.\<close>

function layout_loop :: "nat \<Rightarrow> rat \<Rightarrow> rat \<Rightarrow> nat \<Rightarrow> 'img item list \<Rightarrow> 'img item list" where
  "layout_loop cols tileW tileH i its =
     (if i < length its then
        (let col = i mod cols;
             row = \<lfloor>rat_of_nat i / rat_of_nat cols\<rfloor>
         in layout_loop cols tileW tileH (i + 1)
              (its[i := (its ! i)\<lparr>item_x := PAD + rat_of_nat col * (tileW + GAP),
                                  item_y := PAD + rat_of_int row * (tileH + GAP),
                                  item_w := tileW,
                                  item_h := tileH\<rparr>]))
      else its)"
  by pat_completeness auto
termination
  by (relation "measure (\<lambda>(cols, tileW, tileH, i, its). length its - i)") auto

declare layout_loop.simps [simp del]

text \<open>With no items \<open>rows\<close> is 0 and JavaScript's \<open>tileH\<close> is \<open>Infinity\<close>, where the
  division below gives 0; the loop body does not run then, so \<open>tileH\<close> is never read.\<close>

definition layoutGrid :: "'img sketch \<Rightarrow> 'img sketch" where
  "layoutGrid s =
     (let cols = GRID_COLS;
          rows = \<lceil>rat_of_nat (length (items s)) / rat_of_nat cols\<rceil>;
          usableW = width s - PAD * 2;
          usableH = height s - PAD * 2;
          tileW = (usableW - GAP * (rat_of_nat cols - 1)) / rat_of_nat cols;
          tileH = (usableH - GAP * (rat_of_int rows - 1)) / rat_of_int rows
      in s\<lparr>items := layout_loop cols tileW tileH 0 (items s)\<rparr>)"

section \<open>getHoveredItem and mousePressed\<close>

text \<open>The \<open>for ... of\<close> loop with its early \<open>return\<close>.\<close>

fun hover_scan :: "'img item list \<Rightarrow> rat \<Rightarrow> rat \<Rightarrow> 'img item option" where
  "hover_scan [] mx my = None"
| "hover_scan (it # rest) mx my =
     (if mx \<ge> item_x it \<and> mx \<le> item_x it + item_w it \<and>
         my \<ge> item_y it \<and> my \<le> item_y it + item_h it
      then Some it
      else hover_scan rest mx my)"

definition getHoveredItem :: "'img sketch \<Rightarrow> rat \<Rightarrow> rat \<Rightarrow> 'img item option" where
  "getHoveredItem s mx my = hover_scan (items s) mx my"

text \<open>Decimal digits of a number, as a template literal prints a non-negative integer.\<close>

definition digit_char :: "nat \<Rightarrow> char" where
  "digit_char d = ''0123456789'' ! d"

fun string_of_nat :: "nat \<Rightarrow> string" where
  "string_of_nat n =
     (if n < 10 then [digit_char n]
      else string_of_nat (n div 10) @ [digit_char (n mod 10)])"

declare string_of_nat.simps [simp del]

text \<open>\<open>mousePressed\<close> returns the URL handed to \<open>window.open\<close>, or \<open>None\<close> when nothing is
  opened. It reads neither \<open>loading\<close> nor \<open>errMsg\<close>. The template literal turns
  \<open>hover.objectID\<close> into text by JavaScript's own conversion of a value to a string, which
  is no code of the sketch: it is the parameter \<open>to_string\<close>.\<close>

definition mousePressed ::
  "(id_value \<Rightarrow> string) \<Rightarrow> 'img sketch \<Rightarrow> rat \<Rightarrow> rat \<Rightarrow> string option" where
  "mousePressed to_string s mouseX mouseY =
     (case getHoveredItem s mouseX mouseY of
        None \<Rightarrow> None
      | Some hover \<Rightarrow>
          Some (''https://www.metmuseum.org/art/collection/search/'' @ to_string (objectID hover)))"

text \<open>The closed rectangle \<open>[x, x+w] \<times> [y, y+h]\<close> of a tile, as a set of points.\<close>

definition rect :: "'img item \<Rightarrow> (rat \<times> rat) set" where
  "rect it = {item_x it .. item_x it + item_w it} \<times> {item_y it .. item_y it + item_h it}"

text \<open>What one pass of the loop body writes into the tile at index \<open>i\<close>.\<close>

definition place :: "nat \<Rightarrow> rat \<Rightarrow> rat \<Rightarrow> nat \<Rightarrow> 'img item \<Rightarrow> 'img item" where
  "place cols tw th i it =
     it\<lparr>item_x := PAD + rat_of_nat (i mod cols) * (tw + GAP),
        item_y := PAD + rat_of_int \<lfloor>rat_of_nat i / rat_of_nat cols\<rfloor> * (th + GAP),
        item_w := tw,
        item_h := th\<rparr>"

section \<open>The network and the image loader\<close>

text \<open>
  The outcome of \<open>await fetch(url)\<close> followed by \<open>await res.json()\<close>: the promise of
  \<open>fetch\<close> rejects with an error carrying a message, or it yields a response with its
  \<open>ok\<close> flag, its \<open>status\<close> and the outcome of \<open>json()\<close>. \<open>Inl msg\<close> stands for a
  body that cannot be used: \<open>json()\<close> rejects, or the parsed value is \<open>null\<close> so that
  reading a property of it throws; \<open>msg\<close> is the message of that error.
\<close>

datatype 'j fetch_result =
    Rejected string
  | Response bool nat "string + 'j"

text \<open>The fields the sketch reads from the two JSON bodies. For the fields it reads
  through \<open>||\<close>, \<open>None\<close> is an absent or \<open>null\<close> field (both are falsy); \<open>objectID\<close> is
  copied as it is and keeps the two apart.\<close>

record search_json =
  objectIDs :: "nat list option"

record detail_json =
  json_objectID :: id_value
  json_title :: "string option"
  artistDisplayName :: "string option"
  objectDate :: "string option"
  primaryImageSmall :: "string option"

text \<open>
  The world outside the sketch is a state \<open>'w\<close> threaded through every request, so that
  the same request may be answered differently each time. The search endpoint is keyed by
  the query and the object endpoint by the identifier (the URLs are built from them);
  \<open>loadImage\<close> calls one of its two callbacks, with the image or without.
\<close>

record ('w, 'img) network =
  fetch_search :: "string \<Rightarrow> 'w \<Rightarrow> search_json fetch_result \<times> 'w"
  fetch_detail :: "nat \<Rightarrow> 'w \<Rightarrow> detail_json fetch_result \<times> 'w"
  loadImage :: "string \<Rightarrow> 'w \<Rightarrow> 'img option \<times> 'w"

text \<open>\<open>v || d\<close> on a string field: absent, \<open>null\<close> and the empty string are falsy.\<close>

definition or_else :: "string option \<Rightarrow> string \<Rightarrow> string" where
  "or_else v d = (case v of None \<Rightarrow> d | Some t \<Rightarrow> if t = [] then d else t)"

definition fetchObject :: "('w, 'img) network \<Rightarrow> nat \<Rightarrow> 'w \<Rightarrow> detail_record option \<times> 'w" where
  "fetchObject net oid w =
     (case fetch_detail net oid w of
        (Rejected msg, w') \<Rightarrow> (None, w')
      | (Response ok st body, w') \<Rightarrow>
          if \<not> ok then (None, w')
          else (case body of
                  Inl msg \<Rightarrow> (None, w')
                | Inr d \<Rightarrow>
                    (let imgUrl = or_else (primaryImageSmall d) ''''
                     in if imgUrl = '''' then (None, w')
                        else (Some \<lparr>objectID = json_objectID d,
                                    title = or_else (json_title d) ''(untitled)'',
                                    artist = or_else (artistDisplayName d) ''(unknown artist)'',
                                    date = or_else (objectDate d) '''',
                                    imageUrl = imgUrl\<rparr>, w'))))"

text \<open>The promise made by \<open>loadP5Image\<close> only ever resolves: with the image, or with
  \<open>null\<close> from the failure callback.\<close>

definition loadP5Image :: "('w, 'img) network \<Rightarrow> string \<Rightarrow> 'w \<Rightarrow> 'img option \<times> 'w" where
  "loadP5Image net url w = loadImage net url w"

section \<open>searchMet\<close>

text \<open>\<open>setStatus\<close> writes the text of the element \<open>status\<close> when the page has one
  (\<open>statusEl\<close> is \<open>None\<close> when it has none).\<close>

definition setStatus :: "string \<Rightarrow> 'img sketch \<Rightarrow> 'img sketch" where
  "setStatus msg s = (case statusEl s of None \<Rightarrow> s | Some old \<Rightarrow> s\<lparr>statusEl := Some msg\<rparr>)"

definition dquote :: string where
  "dquote = [CHR 0x22]"

text \<open>The character U+2026 of the status texts, as its three UTF-8 bytes.\<close>

definition ellipsis :: string where
  "ellipsis = [CHR 0xE2, CHR 0x80, CHR 0xA6]"

text \<open>The loop that fills \<open>picked\<close>: one \<open>fetchObject\<close> after the other, until the
  identifiers run out or \<open>picked\<close> holds \<open>MAX_ITEMS\<close> records.\<close>

function fetch_loop ::
  "('w, 'img) network \<Rightarrow> nat list \<Rightarrow> nat \<Rightarrow> detail_record list \<Rightarrow> 'w \<Rightarrow> detail_record list \<times> 'w" where
  "fetch_loop net ids i picked w =
     (if i < length ids \<and> length picked < MAX_ITEMS then
        (case fetchObject net (ids ! i) w of
           (None, w') \<Rightarrow> fetch_loop net ids (i + 1) picked w'
         | (Some obj, w') \<Rightarrow> fetch_loop net ids (i + 1) (picked @ [obj]) w')
      else (picked, w))"
  by pat_completeness auto
termination
  by (relation "measure (\<lambda>(net, ids, i, picked, w). length ids - i)") auto

declare fetch_loop.simps [simp del]

text \<open>The object pushed onto \<open>items\<close>: the record spread, the image, and zero bounds.\<close>

definition new_item :: "detail_record \<Rightarrow> 'img option \<Rightarrow> 'img item" where
  "new_item base im =
     \<lparr>objectID = objectID base, title = title base, artist = artist base, date = date base,
      imageUrl = imageUrl base, img = im, item_x = 0, item_y = 0, item_w = 0, item_h = 0\<rparr>"

text \<open>The preload loop: it pushes one tile per record and reports progress.\<close>

function preload_loop ::
  "('w, 'img) network \<Rightarrow> detail_record list \<Rightarrow> nat \<Rightarrow> 'img sketch \<Rightarrow> 'w \<Rightarrow> 'img sketch \<times> 'w" where
  "preload_loop net picked i s w =
     (if i < length picked then
        (let base = picked ! i
         in case loadP5Image net (imageUrl base) w of
              (im, w') \<Rightarrow>
                preload_loop net picked (i + 1)
                  (setStatus (''loading thumbnails'' @ ellipsis @ '' '' @ string_of_nat (i + 1) @
                              ''/'' @ string_of_nat (length picked))
                     (s\<lparr>items := items s @ [new_item base im]\<rparr>))
                  w')
      else (s, w))"
  by pat_completeness auto
termination
  by (relation "measure (\<lambda>(net, picked, i, s, w). length picked - i)") auto

declare preload_loop.simps [simp del]

text \<open>The first four statements of \<open>searchMet\<close>, before the \<open>try\<close> block.\<close>

definition search_begin :: "string \<Rightarrow> 'img sketch \<Rightarrow> 'img sketch" where
  "search_begin query s =
     setStatus (''searching met for '' @ dquote @ query @ dquote @ ellipsis)
       (s\<lparr>loading := True, errMsg := None, items := []\<rparr>)"

text \<open>The \<open>catch\<close> block followed by the \<open>finally\<close> block; \<open>msg\<close> is \<open>e.message\<close>.\<close>

definition on_error :: "string \<Rightarrow> 'img sketch \<Rightarrow> 'img sketch" where
  "on_error msg s = (setStatus (''error: '' @ msg) (s\<lparr>errMsg := Some msg\<rparr>))\<lparr>loading := False\<rparr>"

text \<open>The \<open>try\<close> block with its \<open>catch\<close> and \<open>finally\<close>. Both early returns set
  \<open>loading\<close> themselves, and \<open>finally\<close> sets it once more.\<close>

definition search_run ::
  "('w, 'img) network \<Rightarrow> string \<Rightarrow> 'img sketch \<Rightarrow> 'w \<Rightarrow> 'img sketch \<times> 'w" where
  "search_run net query s w =
     (case fetch_search net query w of
        (Rejected msg, w1) \<Rightarrow> (on_error msg s, w1)
      | (Response ok st body, w1) \<Rightarrow>
          if \<not> ok then (on_error (''search http '' @ string_of_nat st) s, w1)
          else (case body of
                  Inl msg \<Rightarrow> (on_error msg s, w1)
                | Inr json \<Rightarrow>
                    (let ids = (case objectIDs json of None \<Rightarrow> [] | Some l \<Rightarrow> l)
                     in if length ids = 0 then
                          ((setStatus (''no matches for '' @ dquote @ query @ dquote @ ''.'') s)
                             \<lparr>loading := False\<rparr>, w1)
                        else
                          (let s1 = setStatus (''found '' @ string_of_nat (length ids) @
                                      '' ids. fetching details + thumbnails'' @ ellipsis) s
                           in case fetch_loop net ids 0 [] w1 of
                                (picked, w2) \<Rightarrow>
                                  if length picked = 0 then
                                    ((setStatus
                                        ''found stuff but none had usable images. try another keyword.''
                                        s1)\<lparr>loading := False\<rparr>, w2)
                                  else
                                    (case preload_loop net picked 0 (s1\<lparr>items := []\<rparr>) w2 of
                                       (s2, w3) \<Rightarrow>
                                         (let s3 = layoutGrid s2
                                          in ((setStatus
                                                 (''loaded '' @ string_of_nat (length (items s3)) @
                                                  '' images for '' @ dquote @ query @ dquote @
                                                  ''. hover for info, click to open met page.'')
                                                 s3)\<lparr>loading := False\<rparr>, w3)))))))"

definition searchMet ::
  "('w, 'img) network \<Rightarrow> string \<Rightarrow> 'img sketch \<Rightarrow> 'w \<Rightarrow> 'img sketch \<times> 'w" where
  "searchMet net query s w = search_run net query (search_begin query s) w"

section \<open>draw\<close>

text \<open>What \<open>draw\<close> puts on the canvas: one of its three messages, or the grid with the
  hovered tile (whose tooltip is drawn).\<close>

datatype 'img frame =
    Message string
  | Grid "'img item list" "'img item option"

text \<open>\<open>if (errMsg)\<close> is a truthiness test: \<open>null\<close> and the empty string are falsy.\<close>

definition draw :: "'img sketch \<Rightarrow> rat \<Rightarrow> rat \<Rightarrow> 'img frame" where
  "draw s mouseX mouseY =
     (if loading s then Message (''loading'' @ ellipsis)
      else (case errMsg s of
              Some (c # cs) \<Rightarrow> Message (''error: '' @ c # cs)
            | _ \<Rightarrow>
                if length (items s) = 0 then Message ''no images yet. try another keyword.''
                else Grid (items s) (getHoveredItem s mouseX mouseY)))"

text \<open>The phase of a session, read off the globals as the specification names them:
  Loading while \<open>loading\<close> is set, Error when \<open>errMsg\<close> is not \<open>null\<close>, Ready otherwise.\<close>

datatype phase = Loading | Error | Ready

definition phase_of :: "'img sketch \<Rightarrow> phase" where
  "phase_of s = (if loading s then Loading else if errMsg s \<noteq> None then Error else Ready)"

section \<open>Reference definitions for the two sequential loops\<close>

text \<open>The outcome of \<open>fetchObject\<close> for every identifier of a list, tried one after the
  other from the left, with no cap.\<close>

fun tried_in_order ::
  "('w, 'img) network \<Rightarrow> nat list \<Rightarrow> 'w \<Rightarrow> detail_record option list" where
  "tried_in_order net [] w = []"
| "tried_in_order net (oid # rest) w =
     (case fetchObject net oid w of (r, w') \<Rightarrow> r # tried_in_order net rest w')"

text \<open>The outcome of \<open>loadP5Image\<close> for every record of a list, one after the other.\<close>

fun loaded_in_order ::
  "('w, 'img) network \<Rightarrow> detail_record list \<Rightarrow> 'w \<Rightarrow> 'img option list" where
  "loaded_in_order net [] w = []"
| "loaded_in_order net (base # rest) w =
     (case loadP5Image net (imageUrl base) w of (im, w') \<Rightarrow> im # loaded_in_order net rest w')"

text \<open>The records among the outcomes of a run of fetches, in order, with the failed and
  skipped ones removed.\<close>

fun accepted :: "'a option list \<Rightarrow> 'a list" where
  "accepted [] = []"
| "accepted (None # rs) = accepted rs"
| "accepted (Some r # rs) = r # accepted rs"

text \<open>The search step fails when the request is rejected, the response is not ok, or its
  body cannot be used.\<close>

fun search_step_fails :: "search_json fetch_result \<Rightarrow> bool" where
  "search_step_fails (Rejected msg) = True"
| "search_step_fails (Response ok st (Inl msg)) = True"
| "search_step_fails (Response ok st (Inr json)) = (\<not> ok)"

text \<open>The record a tile was made from.\<close>

definition record_of :: "'img item \<Rightarrow> detail_record" where
  "record_of it =
     \<lparr>objectID = objectID it, title = title it, artist = artist it, date = date it,
      imageUrl = imageUrl it\<rparr>"

section \<open>Concrete sessions\<close>

text \<open>A tile as the preload loop pushes it, and the sketch's 900 by 560 canvas holding
  \<open>n\<close> of them.\<close>

definition blank_item :: "nat \<Rightarrow> nat item" where
  "blank_item k =
     new_item \<lparr>objectID = Id_number k, title = ''(untitled)'', artist = ''(unknown artist)'',
               date = '''', imageUrl = ''u''\<rparr> None"

definition demo_sketch :: "nat \<Rightarrow> nat sketch" where
  "demo_sketch n =
     \<lparr>loading = False, errMsg = None, items = map blank_item [0..<n],
      width = 900, height = 560, statusEl = Some ''''\<rparr>"

text \<open>A network whose search endpoint gives a fixed answer. Object 2 cannot be fetched,
  object 4 has no image URL, and the image of object 3 fails to load; the world counts the
  requests.\<close>

definition demo_net :: "search_json fetch_result \<Rightarrow> (nat, nat) network" where
  "demo_net answer =
     \<lparr>fetch_search = (\<lambda>q w. (answer, w + 1)),
      fetch_detail = (\<lambda>oid w.
         (if oid = 2 then Rejected ''Failed to fetch''
          else Response True 200
                 (Inr \<lparr>json_objectID = Id_number oid, json_title = None, artistDisplayName = None,
                       objectDate = None,
                       primaryImageSmall = (if oid = 4 then Some '''' else Some (''u'' @ string_of_nat oid))\<rparr>),
          w + 1)),
      loadImage = (\<lambda>url w. (if url = ''u3'' then None else Some w, w + 1))\<rparr>"

text \<open>A conversion of identifiers to text: the words \<open>undefined\<close> and \<open>null\<close>, and the
  decimal digits of a number.\<close>

definition demo_to_string :: "id_value \<Rightarrow> string" where
  "demo_to_string v =
     (case v of Id_undefined \<Rightarrow> ''undefined'' | Id_null \<Rightarrow> ''null''
      | Id_number n \<Rightarrow> string_of_nat n)"

text \<open>The record \<open>fetchObject\<close> makes of object \<open>k\<close> on the network above.\<close>

definition demo_record :: "nat \<Rightarrow> detail_record" where
  "demo_record k =
     \<lparr>objectID = Id_number k, title = ''(untitled)'', artist = ''(unknown artist)'', date = '''',
      imageUrl = ''u'' @ string_of_nat k\<rparr>"

text \<open>A search answer with five identifiers.\<close>

definition demo_answer :: "search_json fetch_result" where
  "demo_answer = Response True 200 (Inr \<lparr>objectIDs = Some [1, 2, 3, 4, 5]\<rparr>)"

text \<open>The three records picked from the five candidates.\<close>

definition demo_picked :: "detail_record list" where
  "demo_picked = [demo_record 1, demo_record 3, demo_record 5]"

text \<open>Two more search answers: a response with status 500, and one without identifiers.\<close>

definition demo_500 :: "search_json fetch_result" where
  "demo_500 = Response False 500 (Inl ''Unexpected token'')"

definition demo_no_ids :: "search_json fetch_result" where
  "demo_no_ids = Response True 200 (Inr \<lparr>objectIDs = None\<rparr>)"

section \<open>The layout loop, index by index\<close>

lemma length_layout_loop: "length (layout_loop cols tw th i its) = length its"
proof (induction cols tw th i its rule: layout_loop.induct)
  case (1 cols tw th i its)
  show ?case
  proof (cases "i < length its")
    case True
    with 1 show ?thesis
      by (subst layout_loop.simps) (simp add: Let_def)
  next
    case False
    then show ?thesis
      by (subst layout_loop.simps) simp
  qed
qed

lemma nth_layout_loop:
  "j < length its \<Longrightarrow>
   layout_loop cols tw th i its ! j = (if i \<le> j then place cols tw th j (its ! j) else its ! j)"
proof (induction cols tw th i its rule: layout_loop.induct)
  case (1 cols tw th i its)
  show ?case
  proof (cases "i < length its")
    case True
    let ?its' = "its[i := place cols tw th i (its ! i)]"
    have step: "layout_loop cols tw th i its = layout_loop cols tw th (i + 1) ?its'"
      using True by (subst layout_loop.simps) (simp add: Let_def place_def)
    have "j < length ?its'" using "1.prems" by simp
    with "1.IH" [OF True refl refl] have
      IH: "layout_loop cols tw th (i + 1) ?its' ! j =
             (if i + 1 \<le> j then place cols tw th j (?its' ! j) else ?its' ! j)"
      by (simp add: place_def)
    have "layout_loop cols tw th i its ! j =
            (if i + 1 \<le> j then place cols tw th j (?its' ! j) else ?its' ! j)"
      by (simp only: step IH)
    also have "\<dots> = (if i \<le> j then place cols tw th j (its ! j) else its ! j)"
      using "1.prems" True by (cases "i = j") auto
    finally show ?thesis .
  next
    case False
    with "1.prems" show ?thesis
      by (subst layout_loop.simps) simp
  qed
qed

lemma floor_div_nat: "\<lfloor>rat_of_nat i / rat_of_nat c\<rfloor> = int (i div c)"
  by (metis floor_divide_of_nat_eq of_int_of_nat_eq)

lemma floor_div_cols: "\<lfloor>rat_of_nat i / 6\<rfloor> = int (i div 6)"
  using floor_div_nat [of i 6] by simp

section \<open>The grid: rectangles, bounds, disjointness\<close>

text \<open>
  Claim C1. For a non-empty tile list, \<open>layoutGrid\<close> keeps the number of tiles and gives
  tile \<open>i\<close> (counted from 0) the rectangle with
  \<open>x = PAD + (i mod GRID_COLS) * (tileWidth + GAP)\<close> and
  \<open>y = PAD + (i div GRID_COLS) * (tileHeight + GAP)\<close>, where
  \<open>tileWidth = (width - 2 * PAD - GAP * (GRID_COLS - 1)) / GRID_COLS\<close>,
  \<open>tileHeight = (height - 2 * PAD - GAP * (rows - 1)) / rows\<close> and \<open>rows\<close> is the ceiling of
  the tile count over \<open>GRID_COLS\<close>; every tile, also one of a partial last row, has this
  same width and height. With 18 tiles on the 900 by 560 canvas there are 3 rows, all of them
  full, each tile 135 wide and 500/3 high.
\<close>

theorem layoutGrid_formula:
  "i < length (items s) \<Longrightarrow>
   (let n = length (items s);
        rows = \<lceil>rat_of_nat n / rat_of_nat GRID_COLS\<rceil>;
        tileWidth = (width s - 2 * PAD - GAP * (rat_of_nat GRID_COLS - 1)) / rat_of_nat GRID_COLS;
        tileHeight = (height s - 2 * PAD - GAP * (rat_of_int rows - 1)) / rat_of_int rows;
        t = items (layoutGrid s) ! i
    in length (items (layoutGrid s)) = n \<and>
       item_x t = PAD + rat_of_nat (i mod GRID_COLS) * (tileWidth + GAP) \<and>
       item_y t = PAD + rat_of_nat (i div GRID_COLS) * (tileHeight + GAP) \<and>
       item_w t = tileWidth \<and> item_h t = tileHeight \<and>
       (n = 18 \<and> width s = 900 \<and> height s = 560 \<longrightarrow>
          rows = 3 \<and> n = 3 * GRID_COLS \<and> item_w t = 135 \<and> item_h t = 500 / 3))"
  by (simp add: layoutGrid_def Let_def length_layout_loop nth_layout_loop place_def floor_div_cols
      GRID_COLS_def PAD_def GAP_def)

text \<open>
  The last of 18 tiles on the 900 by 560 canvas: column 5, row 2.
\<close>

theorem layoutGrid_formula_witness:
  "17 < length (items (demo_sketch 18)) \<and>
   length (items (layoutGrid (demo_sketch 18))) = 18 \<and>
   item_x (items (layoutGrid (demo_sketch 18)) ! 17) = 745 \<and>
   item_y (items (layoutGrid (demo_sketch 18)) ! 17) = 1120 / 3 \<and>
   item_w (items (layoutGrid (demo_sketch 18)) ! 17) = 135 \<and>
   item_h (items (layoutGrid (demo_sketch 18)) ! 17) = 500 / 3"
  using layoutGrid_formula [of 17 "demo_sketch 18"]
  by (simp add: demo_sketch_def Let_def GRID_COLS_def PAD_def GAP_def)

lemma nth_layoutGrid:
  "i < length (items s) \<Longrightarrow>
   items (layoutGrid s) ! i =
     place 6 ((width s - 90) / 6)
       ((height s - 40 - 10 * (rat_of_int \<lceil>rat_of_nat (length (items s)) / 6\<rceil> - 1)) /
          rat_of_int \<lceil>rat_of_nat (length (items s)) / 6\<rceil>)
       i (items s ! i)"
  by (simp add: layoutGrid_def Let_def nth_layout_loop GRID_COLS_def PAD_def GAP_def)

lemma length_layoutGrid: "length (items (layoutGrid s)) = length (items s)"
  by (simp add: layoutGrid_def Let_def length_layout_loop)

lemma rows_313: "\<lceil>313 / 6 :: rat\<rceil> = 53"
  by (rule ceiling_unique) simp_all

text \<open>
  Claim C2 as stated, for every tile count from 1 on, fails on the 900 by 560 canvas at 313
  tiles: there are 53 rows then, the gaps between them use up the whole usable height, and
  the tiles have height 0, which is not positive.
\<close>

theorem layoutGrid_313_counterexample:
  "1 \<le> length (items (demo_sketch 313)) \<and> width (demo_sketch 313) = 900 \<and>
   height (demo_sketch 313) = 560 \<and>
   \<not> 0 < item_h (items (layoutGrid (demo_sketch 313)) ! 0)"
  by (simp add: nth_layoutGrid place_def demo_sketch_def rows_313)

lemma rows_ge_1: "1 \<le> n \<Longrightarrow> 1 \<le> \<lceil>rat_of_nat n / 6\<rceil>"
  by (simp add: Suc_le_eq)

lemma row_less_rows: "i < n \<Longrightarrow> int (i div 6) < \<lceil>rat_of_nat n / 6\<rceil>"
proof -
  assume "i < n"
  have "i div 6 * 6 \<le> i" by simp
  with \<open>i < n\<close> have "i div 6 * 6 < n" by linarith
  then have "rat_of_nat (i div 6 * 6) < rat_of_nat n" by (simp only: of_nat_less_iff)
  then have "rat_of_nat (i div 6) < rat_of_nat n / 6" by simp
  then show ?thesis by (simp add: less_ceiling_iff)
qed

lemma tile_row_in_canvas:
  fixes r row :: int
  assumes "1 \<le> r" "r \<le> 52" "0 \<le> row" "row < r"
  defines "th \<equiv> (530 - 10 * rat_of_int r) / rat_of_int r"
  shows "0 < th" and "20 \<le> 20 + rat_of_int row * (th + 10)"
    and "20 + rat_of_int row * (th + 10) + th \<le> 540"
proof -
  have r_pos: "0 < rat_of_int r" using assms(1) by simp
  have "rat_of_int r \<le> 52" using assms(2) by (metis of_int_le_iff of_int_numeral)
  then have num_pos: "0 < 530 - 10 * rat_of_int r" by simp
  show th_pos: "0 < th" unfolding th_def using r_pos num_pos by simp
  have row_nonneg: "0 \<le> rat_of_int row" using assms(3) by simp
  then show "20 \<le> 20 + rat_of_int row * (th + 10)" using th_pos by simp
  have "rat_of_int row \<le> rat_of_int r - 1" using assms(4) by (metis of_int_1 of_int_diff of_int_le_iff zle_diff1_eq)
  then have "rat_of_int row * (th + 10) \<le> (rat_of_int r - 1) * (th + 10)"
    using th_pos by (intro mult_right_mono) simp_all
  moreover have "rat_of_int r * th = 530 - 10 * rat_of_int r"
    unfolding th_def using r_pos by simp
  then have "(rat_of_int r - 1) * (th + 10) + th = 520"
    by (simp add: algebra_simps)
  ultimately show "20 + rat_of_int row * (th + 10) + th \<le> 540" by linarith
qed

lemma tile_col_in_canvas:
  fixes c :: nat
  assumes "c < 6"
  shows "(20::rat) \<le> 20 + rat_of_nat c * 145" and "20 + rat_of_nat c * 145 + 135 \<le> (880::rat)"
proof -
  show "(20::rat) \<le> 20 + rat_of_nat c * 145" by simp
  have "rat_of_nat c \<le> 5" using assms by (metis Suc_numeral less_Suc_eq_le of_nat_le_iff of_nat_numeral semiring_norm(5) semiring_norm(8))
  then show "20 + rat_of_nat c * 145 + 135 \<le> (880::rat)" by simp
qed

lemma shifted_intervals_disjoint:
  fixes a b :: nat and d m p :: rat
  assumes "a < b"
    and "p + rat_of_nat a * (d + GAP) \<le> m" and "m \<le> p + rat_of_nat a * (d + GAP) + d"
    and "p + rat_of_nat b * (d + GAP) \<le> m"
  shows False
proof -
  have d: "0 \<le> d" using assms(2,3) by linarith
  then have step: "0 \<le> d + GAP" by (simp add: GAP_def)
  have "Suc a \<le> b" using assms(1) by simp
  then have "rat_of_nat (Suc a) \<le> rat_of_nat b" by (simp only: of_nat_le_iff)
  then have "rat_of_nat a + 1 \<le> rat_of_nat b" by simp
  then have "(rat_of_nat a + 1) * (d + GAP) \<le> rat_of_nat b * (d + GAP)"
    using step by (rule mult_right_mono)
  then have "rat_of_nat a * (d + GAP) + d + GAP \<le> rat_of_nat b * (d + GAP)"
    by (simp add: algebra_simps)
  moreover have "0 < GAP" by (simp add: GAP_def)
  ultimately show False using assms(3,4) by linarith
qed

lemma intervals_disjoint:
  fixes a b :: nat and d m p :: rat
  assumes "a \<noteq> b"
    and "p + rat_of_nat a * (d + GAP) \<le> m" and "m \<le> p + rat_of_nat a * (d + GAP) + d"
    and "p + rat_of_nat b * (d + GAP) \<le> m" and "m \<le> p + rat_of_nat b * (d + GAP) + d"
  shows False
proof (cases "a < b")
  case True
  then show False using assms(2,3,4) by (rule shifted_intervals_disjoint)
next
  case False
  with assms(1) have "b < a" by simp
  then show False using assms(4,5,2) by (rule shifted_intervals_disjoint)
qed

lemma place_disjoint:
  assumes "i \<noteq> j"
  shows "rect (place 6 tw th i a) \<inter> rect (place 6 tw th j b) = {}"
proof (rule ccontr)
  assume "rect (place 6 tw th i a) \<inter> rect (place 6 tw th j b) \<noteq> {}"
  then obtain mx my where
    pi: "(mx, my) \<in> rect (place 6 tw th i a)" and pj: "(mx, my) \<in> rect (place 6 tw th j b)"
    by auto
  from pi have xi: "PAD + rat_of_nat (i mod 6) * (tw + GAP) \<le> mx"
      "mx \<le> PAD + rat_of_nat (i mod 6) * (tw + GAP) + tw"
    and yi: "PAD + rat_of_nat (i div 6) * (th + GAP) \<le> my"
      "my \<le> PAD + rat_of_nat (i div 6) * (th + GAP) + th"
    by (simp_all add: rect_def place_def floor_div_cols)
  from pj have xj: "PAD + rat_of_nat (j mod 6) * (tw + GAP) \<le> mx"
      "mx \<le> PAD + rat_of_nat (j mod 6) * (tw + GAP) + tw"
    and yj: "PAD + rat_of_nat (j div 6) * (th + GAP) \<le> my"
      "my \<le> PAD + rat_of_nat (j div 6) * (th + GAP) + th"
    by (simp_all add: rect_def place_def floor_div_cols)
  from assms have "i mod 6 \<noteq> j mod 6 \<or> i div 6 \<noteq> j div 6"
    by (metis div_mult_mod_eq)
  then show False
  proof
    assume "i mod 6 \<noteq> j mod 6"
    then show False using xi xj by (rule intervals_disjoint)
  next
    assume "i div 6 \<noteq> j div 6"
    then show False using yi yj by (rule intervals_disjoint)
  qed
qed

text \<open>
  Claim C3. After one call of \<open>layoutGrid\<close>, the closed rectangles of two tiles at different
  indices have no point in common. This holds for every canvas size and every tile count.
\<close>

theorem layoutGrid_tiles_disjoint:
  "i < length (items s) \<Longrightarrow> j < length (items s) \<Longrightarrow> i \<noteq> j \<Longrightarrow>
   rect (items (layoutGrid s) ! i) \<inter> rect (items (layoutGrid s) ! j) = {}"
  by (simp add: nth_layoutGrid place_disjoint)

text \<open>
  The last tile of the first row and the first tile of the second row, out of 18.
\<close>

theorem layoutGrid_tiles_disjoint_witness:
  "(5::nat) < length (items (demo_sketch 18)) \<and> (6::nat) < length (items (demo_sketch 18)) \<and>
   (5::nat) \<noteq> 6 \<and>
   rect (items (layoutGrid (demo_sketch 18)) ! 5) \<inter>
   rect (items (layoutGrid (demo_sketch 18)) ! 6) = {}"
  using layoutGrid_tiles_disjoint [of 5 "demo_sketch 18" 6]
  by (simp add: demo_sketch_def)

section \<open>Hit testing\<close>

lemma hover_scan_find: "hover_scan its mx my = find (\<lambda>it. (mx, my) \<in> rect it) its"
  by (induction its) (simp_all add: rect_def)

text \<open>
  Claim C4. \<open>getHoveredItem\<close> returns a tile exactly when the pointer lies in the closed
  rectangle \<open>[x, x+w] \<times> [y, y+h]\<close> of some tile; the tile returned is the first one in stored
  order whose rectangle contains the pointer; and for a pointer in no tile's rectangle (a
  point of the padding or of a gap) it returns none.
\<close>

theorem getHoveredItem_first_hit:
  "(getHoveredItem s mx my \<noteq> None \<longleftrightarrow> (\<exists>it \<in> set (items s). (mx, my) \<in> rect it)) \<and>
   (\<forall>it. getHoveredItem s mx my = Some it \<longleftrightarrow>
      (\<exists>k < length (items s). it = items s ! k \<and> (mx, my) \<in> rect it \<and>
         (\<forall>j < k. (mx, my) \<notin> rect (items s ! j)))) \<and>
   ((\<forall>it \<in> set (items s). (mx, my) \<notin> rect it) \<longrightarrow> getHoveredItem s mx my = None)"
proof (intro conjI allI impI)
  show "getHoveredItem s mx my \<noteq> None \<longleftrightarrow> (\<exists>it \<in> set (items s). (mx, my) \<in> rect it)"
    by (auto simp add: getHoveredItem_def hover_scan_find find_None_iff)
next
  fix it
  show "getHoveredItem s mx my = Some it \<longleftrightarrow>
      (\<exists>k < length (items s). it = items s ! k \<and> (mx, my) \<in> rect it \<and>
         (\<forall>j < k. (mx, my) \<notin> rect (items s ! j)))"
    unfolding getHoveredItem_def hover_scan_find find_Some_iff by blast
next
  assume "\<forall>it \<in> set (items s). (mx, my) \<notin> rect it"
  then show "getHoveredItem s mx my = None"
    by (simp add: getHoveredItem_def hover_scan_find find_None_iff)
qed

lemma grid_7_gap: "getHoveredItem (layoutGrid (demo_sketch 7)) 160 100 = None"
  by (simp add: getHoveredItem_def layoutGrid_def demo_sketch_def Let_def GRID_COLS_def PAD_def
      GAP_def layout_loop.simps upt_rec blank_item_def new_item_def floor_div_cols)

text \<open>
  On a laid-out grid of 7 tiles the point (160, 100) lies in the gap between the first two
  columns, and no tile is returned; of two tiles stacked at the origin the first is returned.
\<close>

theorem getHoveredItem_first_hit_witness:
  "getHoveredItem (layoutGrid (demo_sketch 7)) 160 100 = None \<and>
   \<not> (\<exists>it \<in> set (items (layoutGrid (demo_sketch 7))). (160, 100) \<in> rect it) \<and>
   getHoveredItem (demo_sketch 2) 0 0 = Some (blank_item 0) \<and>
   (\<exists>k < length (items (demo_sketch 2)).
      blank_item 0 = items (demo_sketch 2) ! k \<and> (0, 0) \<in> rect (blank_item 0) \<and>
      (\<forall>j < k. (0, 0) \<notin> rect (items (demo_sketch 2) ! j)))"
proof -
  have e: "getHoveredItem (demo_sketch 2) 0 0 = Some (blank_item 0)"
    by (simp add: getHoveredItem_def demo_sketch_def upt_rec blank_item_def new_item_def)
  show ?thesis
    using getHoveredItem_first_hit [of "layoutGrid (demo_sketch 7)" 160 100]
      getHoveredItem_first_hit [of "demo_sketch 2" 0 0] grid_7_gap e
    by (simp only: simp_thms) blast
qed

section \<open>The fetch loop\<close>

lemma fetchObject_imageUrl:
  "fetchObject net oid w = (Some r, w') \<Longrightarrow> imageUrl r \<noteq> ''''"
  by (auto simp: fetchObject_def Let_def split: prod.splits fetch_result.splits sum.splits if_splits)

lemma tried_in_order_imageUrl:
  "Some r \<in> set (tried_in_order net ids w) \<Longrightarrow> imageUrl r \<noteq> ''''"
proof (induction ids arbitrary: w)
  case Nil
  then show ?case by simp
next
  case (Cons oid rest)
  obtain r0 w0 where f: "fetchObject net oid w = (r0, w0)" by (cases "fetchObject net oid w")
  with Cons.prems have "Some r = r0 \<or> Some r \<in> set (tried_in_order net rest w0)" by auto
  then show ?case
  proof
    assume "Some r = r0"
    with f show ?thesis using fetchObject_imageUrl by metis
  next
    assume "Some r \<in> set (tried_in_order net rest w0)"
    then show ?thesis by (rule Cons.IH)
  qed
qed

lemma set_accepted: "set (accepted rs) = {r. Some r \<in> set rs}"
  by (induction rs rule: accepted.induct) auto

lemma map_Some_accepted: "map Some (accepted rs) = filter (\<lambda>r. r \<noteq> None) rs"
  by (induction rs rule: accepted.induct) auto

lemma fetch_loop_accepts:
  "i \<le> length ids \<Longrightarrow>
   fst (fetch_loop net ids i picked w) =
     picked @ take (MAX_ITEMS - length picked) (accepted (tried_in_order net (drop i ids) w))"
proof (induction net ids i picked w rule: fetch_loop.induct)
  case (1 net ids i picked w)
  show ?case
  proof (cases "i < length ids \<and> length picked < MAX_ITEMS")
    case True
    obtain r w' where f: "fetchObject net (ids ! i) w = (r, w')"
      by (cases "fetchObject net (ids ! i) w")
    from True have d: "drop i ids = ids ! i # drop (i + 1) ids"
      by (simp add: Cons_nth_drop_Suc)
    from True have le: "i + 1 \<le> length ids" by simp
    show ?thesis
    proof (cases r)
      case None
      with "1.IH"(1) [OF True f [symmetric] _ le] f have
        "fst (fetch_loop net ids (i + 1) picked w') =
           picked @ take (MAX_ITEMS - length picked)
             (accepted (tried_in_order net (drop (i + 1) ids) w'))" by simp
      with True f None show ?thesis
        by (subst fetch_loop.simps) (simp add: d)
    next
      case (Some obj)
      with "1.IH"(2) [OF True f [symmetric] _ le] f have
        "fst (fetch_loop net ids (i + 1) (picked @ [obj]) w') =
           (picked @ [obj]) @ take (MAX_ITEMS - length (picked @ [obj]))
             (accepted (tried_in_order net (drop (i + 1) ids) w'))" by simp
      moreover from True have
        "MAX_ITEMS - length picked = Suc (MAX_ITEMS - Suc (length picked))" by arith
      ultimately show ?thesis using True f Some
        by (subst fetch_loop.simps) (simp add: d)
    qed
  next
    case False
    then have "fetch_loop net ids i picked w = (picked, w)"
      by (subst fetch_loop.simps) auto
    moreover from False "1.prems" have
      "take (MAX_ITEMS - length picked) (accepted (tried_in_order net (drop i ids) w)) = []"
      by (cases "i < length ids") auto
    ultimately show ?thesis by simp
  qed
qed

lemma subseq_take_accepted: "subseq (map Some (take n (accepted rs))) rs"
proof -
  have "prefix (take n (filter (\<lambda>r. r \<noteq> None) rs)) (filter (\<lambda>r. r \<noteq> None) rs)"
    by (rule take_is_prefix)
  then have "subseq (take n (filter (\<lambda>r. r \<noteq> None) rs)) (filter (\<lambda>r. r \<noteq> None) rs)"
    by (rule prefix_imp_subseq)
  then have "subseq (take n (filter (\<lambda>r. r \<noteq> None) rs)) rs"
    using subseq_filter_left by (rule subseq_order.trans)
  then show ?thesis by (simp only: take_map [symmetric] map_Some_accepted)
qed

text \<open>
  Claim C5. For every list of candidate identifiers and every behaviour of the network, the
  list \<open>picked\<close> built by the fetch loop has at most \<open>MAX_ITEMS\<close> records, none with an empty
  \<open>imageUrl\<close>, and keeps the order in which the identifiers were tried: it is the first
  \<open>MAX_ITEMS\<close> accepted outcomes of fetching the identifiers from left to right, hence a
  subsequence of those outcomes.
\<close>

theorem fetch_loop_picked:
  "length (fst (fetch_loop net ids 0 [] w)) \<le> MAX_ITEMS \<and>
   (\<forall>r \<in> set (fst (fetch_loop net ids 0 [] w)). imageUrl r \<noteq> '''') \<and>
   fst (fetch_loop net ids 0 [] w) = take MAX_ITEMS (accepted (tried_in_order net ids w)) \<and>
   subseq (map Some (fst (fetch_loop net ids 0 [] w))) (tried_in_order net ids w)"
proof -
  have p: "fst (fetch_loop net ids 0 [] w) = take MAX_ITEMS (accepted (tried_in_order net ids w))"
    using fetch_loop_accepts [of 0 ids net "[]" w] by simp
  have "imageUrl r \<noteq> ''''" if "r \<in> set (fst (fetch_loop net ids 0 [] w))" for r
  proof -
    from that have "r \<in> set (accepted (tried_in_order net ids w))"
      unfolding p by (rule in_set_takeD)
    then have "Some r \<in> set (tried_in_order net ids w)" by (simp add: set_accepted)
    then show ?thesis by (rule tried_in_order_imageUrl)
  qed
  then show ?thesis
    using p subseq_take_accepted [of MAX_ITEMS "tried_in_order net ids w"] by simp
qed

lemma demo_tried:
  "tried_in_order (demo_net a) [1, 2, 3, 4, 5] 0 =
     [Some (demo_record 1), None, Some (demo_record 3), None, Some (demo_record 5)]"
  by (simp add: fetchObject_def demo_net_def demo_record_def or_else_def Let_def
      string_of_nat.simps digit_char_def)

lemma demo_tried_many:
  "accepted (tried_in_order (demo_net a) (replicate n 7) w) = replicate n (demo_record 7)"
  by (induction n arbitrary: w)
    (simp_all add: fetchObject_def demo_net_def demo_record_def or_else_def Let_def
      string_of_nat.simps digit_char_def)

text \<open>
  Of five candidates, the second cannot be fetched and the fourth has no image: the other
  three are picked, in order. Of 40 usable candidates the first 18 are picked.
\<close>

theorem fetch_loop_picked_witness:
  "fst (fetch_loop (demo_net demo_answer) [1, 2, 3, 4, 5] 0 [] 0) =
     [demo_record 1, demo_record 3, demo_record 5] \<and>
   length (fst (fetch_loop (demo_net demo_answer) [1, 2, 3, 4, 5] 0 [] 0)) \<le> MAX_ITEMS \<and>
   fst (fetch_loop (demo_net demo_answer) (replicate 40 7) 0 [] 0) = replicate 18 (demo_record 7)"
proof -
  note few = fetch_loop_picked [of "demo_net demo_answer" "[1, 2, 3, 4, 5]" 0, unfolded demo_tried]
  note many = fetch_loop_picked [of "demo_net demo_answer" "replicate 40 7" 0,
      unfolded demo_tried_many]
  show ?thesis using few many by (simp add: MAX_ITEMS_def)
qed

section \<open>The preload loop\<close>

lemma setStatus_fields [simp]:
  "items (setStatus m s) = items s" "loading (setStatus m s) = loading s"
  "errMsg (setStatus m s) = errMsg s" "width (setStatus m s) = width s"
  "height (setStatus m s) = height s"
  by (simp_all add: setStatus_def split: option.splits)

lemma statusEl_setStatus:
  "statusEl (setStatus m s) = (case statusEl s of None \<Rightarrow> None | Some old \<Rightarrow> Some m)"
  by (simp add: setStatus_def split: option.splits)

lemma length_loaded_in_order: "length (loaded_in_order net bs w) = length bs"
  by (induction bs arbitrary: w) (simp_all split: prod.splits)

lemma preload_loop_items:
  "i \<le> length picked \<Longrightarrow>
   items (fst (preload_loop net picked i s w)) =
     items s @ map2 new_item (drop i picked) (loaded_in_order net (drop i picked) w)"
proof (induction net picked i s w rule: preload_loop.induct)
  case (1 net picked i s w)
  show ?case
  proof (cases "i < length picked")
    case True
    obtain im w' where l: "loadP5Image net (imageUrl (picked ! i)) w = (im, w')"
      by (cases "loadP5Image net (imageUrl (picked ! i)) w")
    let ?s' = "setStatus (''loading thumbnails'' @ ellipsis @ '' '' @ string_of_nat (i + 1) @
                 ''/'' @ string_of_nat (length picked))
                 (s\<lparr>items := items s @ [new_item (picked ! i) im]\<rparr>)"
    from True have d: "drop i picked = picked ! i # drop (i + 1) picked"
      by (simp add: Cons_nth_drop_Suc)
    from True have le: "i + 1 \<le> length picked" by simp
    have step: "preload_loop net picked i s w = preload_loop net picked (i + 1) ?s' w'"
      using True l by (subst preload_loop.simps) (simp add: Let_def)
    have "items (fst (preload_loop net picked (i + 1) ?s' w')) =
            items ?s' @ map2 new_item (drop (i + 1) picked)
              (loaded_in_order net (drop (i + 1) picked) w')"
      by (rule "1.IH" [OF True refl l [symmetric] le])
    also have "\<dots> = items s @ map2 new_item (drop i picked) (loaded_in_order net (drop i picked) w)"
      by (simp add: d l)
    finally show ?thesis by (simp only: step)
  next
    case False
    with "1.prems" show ?thesis
      by (subst preload_loop.simps) simp
  qed
qed

lemma record_of_new_item: "record_of (new_item base im) = base"
  by (simp add: record_of_def new_item_def)

lemma map_record_of_zip:
  "length ims = length bs \<Longrightarrow> map record_of (map2 new_item bs ims) = bs"
proof (induction bs arbitrary: ims)
  case Nil
  then show ?case by simp
next
  case (Cons b bs)
  then obtain im ims' where "ims = im # ims'" by (cases ims) auto
  with Cons show ?case by (simp add: record_of_new_item)
qed

text \<open>
  Claim C6. For every list of records and every behaviour of the image loader, the preload
  loop, started on the emptied tile list, ends with one tile per record, in the order of the
  records: tile \<open>i\<close> is record \<open>i\<close> with the outcome of loading its \<open>imageUrl\<close> and zero
  bounds. Where loading failed the tile is there all the same, its image absent.
\<close>

theorem preload_loop_tiles:
  "length (items (fst (preload_loop net picked 0 (s\<lparr>items := []\<rparr>) w))) = length picked \<and>
   map record_of (items (fst (preload_loop net picked 0 (s\<lparr>items := []\<rparr>) w))) = picked \<and>
   length (loaded_in_order net picked w) = length picked \<and>
   (\<forall>i < length picked.
      items (fst (preload_loop net picked 0 (s\<lparr>items := []\<rparr>) w)) ! i =
        new_item (picked ! i) (loaded_in_order net picked w ! i) \<and>
      (loaded_in_order net picked w ! i = None \<longrightarrow>
         img (items (fst (preload_loop net picked 0 (s\<lparr>items := []\<rparr>) w)) ! i) = None \<and>
         record_of (items (fst (preload_loop net picked 0 (s\<lparr>items := []\<rparr>) w)) ! i) = picked ! i))"
proof -
  let ?tiles = "items (fst (preload_loop net picked 0 (s\<lparr>items := []\<rparr>) w))"
  let ?imgs = "loaded_in_order net picked w"
  have t: "?tiles = map2 new_item picked ?imgs"
    using preload_loop_items [of 0 picked net "s\<lparr>items := []\<rparr>" w] by simp
  have n: "length ?imgs = length picked" by (rule length_loaded_in_order)
  have len: "length ?tiles = length picked" by (simp add: t n)
  have recs: "map record_of ?tiles = picked" unfolding t using n by (rule map_record_of_zip)
  have nth: "?tiles ! i = new_item (picked ! i) (?imgs ! i)" if "i < length picked" for i
    using that n by (simp add: t)
  have "img (?tiles ! i) = None \<and> record_of (?tiles ! i) = picked ! i"
    if "i < length picked" "?imgs ! i = None" for i
    using that by (simp add: nth record_of_new_item) (simp add: new_item_def)
  with len recs n nth show ?thesis by blast
qed

lemma demo_loaded: "loaded_in_order (demo_net demo_answer) demo_picked 0 = [Some 0, None, Some 2]"
  by (simp add: demo_picked_def demo_record_def loadP5Image_def demo_net_def string_of_nat.simps digit_char_def)

text \<open>
  Three records, the image of the second failing to load: three tiles, the second without
  an image.
\<close>

theorem preload_loop_tiles_witness:
  "items (fst (preload_loop (demo_net demo_answer) demo_picked 0 ((demo_sketch 2)\<lparr>items := []\<rparr>) 0)) ! 1
     = new_item (demo_record 3) None \<and>
   length (items (fst (preload_loop (demo_net demo_answer) demo_picked 0
     ((demo_sketch 2)\<lparr>items := []\<rparr>) 0))) = 3 \<and>
   map record_of (items (fst (preload_loop (demo_net demo_answer) demo_picked 0
     ((demo_sketch 2)\<lparr>items := []\<rparr>) 0))) = [demo_record 1, demo_record 3, demo_record 5]"
proof -
  note t = preload_loop_tiles [of "demo_net demo_answer" demo_picked "demo_sketch 2" 0,
      unfolded demo_loaded]
  have n: "length demo_picked = 3" "(1::nat) < length demo_picked" "demo_picked ! 1 = demo_record 3"
    by (simp_all add: demo_picked_def)
  from t n show ?thesis by (auto simp: demo_picked_def)
qed

section \<open>Outcomes of a search\<close>

lemma search_run_not_ok:
  "fetch_search net query w = (Response False st body, w') \<Longrightarrow>
   fst (search_run net query s w) = on_error (''search http '' @ string_of_nat st) s"
  by (simp add: search_run_def)

lemma on_error_fields:
  "errMsg (on_error msg s) = Some msg" "loading (on_error msg s) = False"
  "items (on_error msg s) = items s"
  "statusEl (on_error msg s) = (case statusEl s of None \<Rightarrow> None | Some old \<Rightarrow> Some (''error: '' @ msg))"
  by (simp_all add: on_error_def statusEl_setStatus split: option.splits)

lemma search_begin_fields:
  "items (search_begin query s) = []" "loading (search_begin query s) = True"
  "errMsg (search_begin query s) = None"
  "statusEl (search_begin query s) = None \<longleftrightarrow> statusEl s = None"
  by (simp_all add: search_begin_def statusEl_setStatus split: option.splits)

text \<open>
  Claim C7. When the search request is answered with a response that is not ok,
  \<open>searchMet\<close> ends with \<open>errMsg\<close> set to \<open>search http\<close> followed by the status, \<open>loading\<close>
  false and no tiles: the session is in the Error phase, not Ready, and \<open>draw\<close> and the status
  element show the error. For the status 500 the message is \<open>search http 500\<close>, which contains
  \<open>http 500\<close>.
\<close>

theorem search_http_error:
  assumes "fetch_search net query w = (Response False st body, w')"
  shows "errMsg (fst (searchMet net query s w)) = Some (''search http '' @ string_of_nat st) \<and>
         \<not> loading (fst (searchMet net query s w)) \<and>
         items (fst (searchMet net query s w)) = [] \<and>
         phase_of (fst (searchMet net query s w)) = Error \<and>
         phase_of (fst (searchMet net query s w)) \<noteq> Ready \<and>
         draw (fst (searchMet net query s w)) mx my =
           Message (''error: search http '' @ string_of_nat st) \<and>
         (statusEl s \<noteq> None \<longrightarrow>
            statusEl (fst (searchMet net query s w)) =
              Some (''error: search http '' @ string_of_nat st)) \<and>
         (st = 500 \<longrightarrow>
            errMsg (fst (searchMet net query s w)) = Some ''search http 500'' \<and>
            sublist ''http 500'' (the (errMsg (fst (searchMet net query s w)))))"
proof -
  let ?s' = "fst (searchMet net query s w)"
  have s': "?s' = on_error (''search http '' @ string_of_nat st) (search_begin query s)"
    unfolding searchMet_def using assms by (rule search_run_not_ok)
  have e: "errMsg ?s' = Some (''search http '' @ string_of_nat st)"
    and l: "\<not> loading ?s'" and i: "items ?s' = []"
    by (simp_all add: s' on_error_fields search_begin_fields)
  have p: "phase_of ?s' = Error" by (simp add: phase_of_def e l)
  have d: "draw ?s' mx my = Message (''error: search http '' @ string_of_nat st)"
    by (simp add: draw_def e l)
  have st: "statusEl ?s' = Some (''error: search http '' @ string_of_nat st)"
    if "statusEl s \<noteq> None"
  proof -
    from that obtain old where "statusEl (search_begin query s) = Some old"
      using search_begin_fields(4) [of query s] by auto
    then show ?thesis by (simp add: s' on_error_fields)
  qed
  have "''search http 500'' = ''search '' @ ''http 500'' @ []" by simp
  then have sub: "sublist ''http 500'' ''search http 500''" unfolding sublist_def by blast
  have five: "errMsg ?s' = Some ''search http 500'' \<and> sublist ''http 500'' (the (errMsg ?s'))"
    if "st = 500"
    using that sub by (simp add: e string_of_nat.simps digit_char_def)
  have r: "phase_of ?s' \<noteq> Ready" by (simp add: p)
  from e l i p r d st five show ?thesis by blast
qed

text \<open>
  A search answered with the status 500.
\<close>

theorem search_http_error_witness:
  "fetch_search (demo_net demo_500) ''cat'' 0 = (Response False 500 (Inl ''Unexpected token''), 1) \<and>
   errMsg (fst (searchMet (demo_net demo_500) ''cat'' (demo_sketch 0) 0)) = Some ''search http 500'' \<and>
   \<not> loading (fst (searchMet (demo_net demo_500) ''cat'' (demo_sketch 0) 0)) \<and>
   items (fst (searchMet (demo_net demo_500) ''cat'' (demo_sketch 0) 0)) = [] \<and>
   phase_of (fst (searchMet (demo_net demo_500) ''cat'' (demo_sketch 0) 0)) = Error \<and>
   statusEl (fst (searchMet (demo_net demo_500) ''cat'' (demo_sketch 0) 0)) =
     Some ''error: search http 500'' \<and>
   draw (fst (searchMet (demo_net demo_500) ''cat'' (demo_sketch 0) 0)) 0 0 =
     Message ''error: search http 500''"
proof -
  have f: "fetch_search (demo_net demo_500) ''cat'' 0 =
             (Response False 500 (Inl ''Unexpected token''), 1)"
    by (simp add: demo_net_def demo_500_def)
  have el: "statusEl (demo_sketch 0) \<noteq> None" by (simp add: demo_sketch_def)
  have n: "string_of_nat 500 = ''500''" by (simp add: string_of_nat.simps digit_char_def)
  show ?thesis
    using search_http_error [OF f, of "demo_sketch 0" 0 0] f el by (simp add: n)
qed

text \<open>
  Claim C8. When the search request succeeds and the answer has no \<open>objectIDs\<close> or an empty
  list of them, \<open>searchMet\<close> ends with \<open>loading\<close> false, \<open>errMsg\<close> still \<open>null\<close> and no
  tiles: the session is Ready, not in error; the status element (when the page has one) reads
  \<open>no matches for\<close> the query, and \<open>draw\<close> shows its message for an empty tile list.
\<close>

theorem search_no_matches:
  assumes "fetch_search net query w = (Response True st (Inr json), w')"
    and "objectIDs json = None \<or> objectIDs json = Some []"
  shows "\<not> loading (fst (searchMet net query s w)) \<and>
         errMsg (fst (searchMet net query s w)) = None \<and>
         items (fst (searchMet net query s w)) = [] \<and>
         phase_of (fst (searchMet net query s w)) = Ready \<and>
         (statusEl s \<noteq> None \<longrightarrow>
            statusEl (fst (searchMet net query s w)) =
              Some (''no matches for '' @ dquote @ query @ dquote @ ''.'')) \<and>
         draw (fst (searchMet net query s w)) mx my =
           Message ''no images yet. try another keyword.''"
proof -
  let ?s0 = "search_begin query s"
  let ?s' = "fst (searchMet net query s w)"
  have s': "?s' = (setStatus (''no matches for '' @ dquote @ query @ dquote @ ''.'') ?s0)
                    \<lparr>loading := False\<rparr>"
    using assms by (auto simp: searchMet_def search_run_def)
  have l: "\<not> loading ?s'" and e: "errMsg ?s' = None" and i: "items ?s' = []"
    by (simp_all add: s' search_begin_fields)
  have p: "phase_of ?s' = Ready" by (simp add: phase_of_def e l)
  have d: "draw ?s' mx my = Message ''no images yet. try another keyword.''"
    by (simp add: draw_def e l i)
  have st: "statusEl ?s' = Some (''no matches for '' @ dquote @ query @ dquote @ ''.'')"
    if "statusEl s \<noteq> None"
  proof -
    from that obtain old where "statusEl ?s0 = Some old"
      using search_begin_fields(4) [of query s] by auto
    then show ?thesis by (simp add: s' statusEl_setStatus)
  qed
  from l e i p d st show ?thesis by simp
qed

text \<open>
  A search answered without identifiers.
\<close>

theorem search_no_matches_witness:
  "fetch_search (demo_net demo_no_ids) ''zzz'' 0 = (Response True 200 (Inr \<lparr>objectIDs = None\<rparr>), 1) \<and>
   \<not> loading (fst (searchMet (demo_net demo_no_ids) ''zzz'' (demo_sketch 0) 0)) \<and>
   errMsg (fst (searchMet (demo_net demo_no_ids) ''zzz'' (demo_sketch 0) 0)) = None \<and>
   items (fst (searchMet (demo_net demo_no_ids) ''zzz'' (demo_sketch 0) 0)) = [] \<and>
   phase_of (fst (searchMet (demo_net demo_no_ids) ''zzz'' (demo_sketch 0) 0)) = Ready \<and>
   statusEl (fst (searchMet (demo_net demo_no_ids) ''zzz'' (demo_sketch 0) 0)) =
     Some (''no matches for '' @ dquote @ ''zzz'' @ dquote @ ''.'')"
proof -
  have f: "fetch_search (demo_net demo_no_ids) ''zzz'' 0 =
             (Response True 200 (Inr \<lparr>objectIDs = None\<rparr>), 1)"
    by (simp add: demo_net_def demo_no_ids_def)
  have j: "objectIDs \<lparr>objectIDs = None\<rparr> = None \<or> objectIDs \<lparr>objectIDs = None\<rparr> = Some []"
    by simp
  have el: "statusEl (demo_sketch 0) \<noteq> None" by (simp add: demo_sketch_def)
  show ?thesis
    using search_no_matches [OF f j, of "demo_sketch 0" 0 0] f el by simp
qed

lemma search_run_fails:
  "search_step_fails (fst (fetch_search net query w)) \<Longrightarrow>
   \<exists>msg. fst (search_run net query s w) = on_error msg s"
  by (cases "fetch_search net query w" rule: prod.exhaust [case_names Pair],
      cases "fst (fetch_search net query w)" rule: search_step_fails.cases)
    (auto simp: search_run_def)

text \<open>
  Claim C10. \<open>searchMet\<close> empties the tile list before the \<open>try\<close> block, hence before any
  request. So whatever the session was before, a search that fails at the search step (the
  request is rejected, the response is not ok, or its body cannot be used) ends with no tiles,
  \<open>errMsg\<close> set and \<open>loading\<close> false: the tiles of the previous search are not restored.
\<close>

theorem search_failure_discards_tiles:
  "searchMet net query s w = search_run net query (search_begin query s) w \<and>
   items (search_begin query s) = [] \<and>
   (search_step_fails (fst (fetch_search net query w)) \<longrightarrow>
      items (fst (searchMet net query s w)) = [] \<and>
      errMsg (fst (searchMet net query s w)) \<noteq> None \<and>
      \<not> loading (fst (searchMet net query s w)))"
proof (intro conjI impI)
  show "searchMet net query s w = search_run net query (search_begin query s) w"
    by (simp add: searchMet_def)
  show "items (search_begin query s) = []" by (simp add: search_begin_fields)
  assume "search_step_fails (fst (fetch_search net query w))"
  from search_run_fails [OF this, of "search_begin query s"] obtain msg where
    s': "fst (searchMet net query s w) = on_error msg (search_begin query s)"
    unfolding searchMet_def by blast
  show "items (fst (searchMet net query s w)) = []"
    by (simp add: s' on_error_fields search_begin_fields)
  show "errMsg (fst (searchMet net query s w)) \<noteq> None" by (simp add: s' on_error_fields)
  show "\<not> loading (fst (searchMet net query s w))" by (simp add: s' on_error_fields)
qed

text \<open>
  A laid-out grid of 18 tiles, then a search answered with the status 500.
\<close>

theorem search_failure_discards_tiles_witness:
  "length (items (layoutGrid (demo_sketch 18))) = 18 \<and>
   phase_of (layoutGrid (demo_sketch 18)) = Ready \<and>
   search_step_fails (fst (fetch_search (demo_net demo_500) ''cat'' 0)) \<and>
   items (fst (searchMet (demo_net demo_500) ''cat'' (layoutGrid (demo_sketch 18)) 0)) = []"
proof -
  have f: "search_step_fails (fst (fetch_search (demo_net demo_500) ''cat'' 0))"
    by (simp add: demo_net_def demo_500_def)
  have n: "length (items (layoutGrid (demo_sketch 18))) = 18"
    by (simp add: length_layoutGrid demo_sketch_def)
  have p: "phase_of (layoutGrid (demo_sketch 18)) = Ready"
    by (simp add: phase_of_def layoutGrid_def Let_def demo_sketch_def)
  from search_failure_discards_tiles [of "demo_net demo_500" "''cat''"
      "layoutGrid (demo_sketch 18)" 0] f
  have "items (fst (searchMet (demo_net demo_500) ''cat'' (layoutGrid (demo_sketch 18)) 0)) = []"
    by blast
  with f n p show ?thesis by blast
qed

section \<open>Tiles that are not laid out yet\<close>

lemma origin_outside_grid: "getHoveredItem (layoutGrid s) 0 0 = None"
proof -
  have "(0, 0) \<notin> rect it" if "it \<in> set (items (layoutGrid s))" for it
  proof
    assume inside: "(0, 0) \<in> rect it"
    from that obtain i where i: "i < length (items s)" and it: "it = items (layoutGrid s) ! i"
      by (auto simp: in_set_conv_nth length_layoutGrid)
    define tw where "tw = (width s - 90) / 6"
    have x: "item_x it = PAD + rat_of_nat (i mod 6) * (tw + GAP)" and w: "item_w it = tw"
      using i by (simp_all add: it nth_layoutGrid place_def tw_def)
    from inside have le: "item_x it \<le> 0" "0 \<le> item_x it + item_w it"
      by (simp_all add: rect_def)
    then have "0 \<le> tw" using w by linarith
    then have "0 \<le> rat_of_nat (i mod 6) * (tw + GAP)" by (simp add: GAP_def)
    then have "0 < item_x it" by (simp add: x PAD_def)
    with le(1) show False by simp
  qed
  then show ?thesis
    by (simp add: getHoveredItem_def hover_scan_find find_None_iff)
qed

text \<open>
  Claim C9 as stated, for every tile with zero bounds, fails for the second of two tiles that
  were pushed and not yet laid out: the scan returns the first one.
\<close>

theorem unplaced_tiles_counterexample:
  "item_x (items (demo_sketch 2) ! 1) = 0 \<and> item_y (items (demo_sketch 2) ! 1) = 0 \<and>
   item_w (items (demo_sketch 2) ! 1) = 0 \<and> item_h (items (demo_sketch 2) ! 1) = 0 \<and>
   getHoveredItem (demo_sketch 2) 0 0 \<noteq> Some (items (demo_sketch 2) ! 1) \<and>
   getHoveredItem (demo_sketch 2) 0 0 = Some (items (demo_sketch 2) ! 0)"
  by (simp add: getHoveredItem_def demo_sketch_def upt_rec blank_item_def new_item_def)

lemma mousePressed_ignores_phase:
  "mousePressed to_string (s\<lparr>loading := l, errMsg := e\<rparr>) mx my = mousePressed to_string s mx my"
  by (simp add: mousePressed_def getHoveredItem_def)

lemma preload_loop_nth:
  assumes "i < length picked"
  shows "items (fst (preload_loop net picked 0 (s\<lparr>items := []\<rparr>) w)) ! i =
           new_item (picked ! i) (loaded_in_order net picked w ! i)"
proof -
  have "items (fst (preload_loop net picked 0 (s\<lparr>items := []\<rparr>) w)) =
          map2 new_item picked (loaded_in_order net picked w)"
    using preload_loop_items [of 0 picked net "s\<lparr>items := []\<rparr>" w] by simp
  then show ?thesis using assms by (simp add: length_loaded_in_order)
qed

text \<open>
  Claim C9, amended. For every tile whose bounds are still the initial zeros
  \<open>x = y = w = h = 0\<close> (the bounds of every tile the preload loop pushes), the closed
  rectangle of the tile contains its corner (0, 0), and \<open>getHoveredItem\<close> at the pointer
  (0, 0) returns a tile rather than none: that tile when no earlier tile's rectangle contains
  the origin, otherwise the first tile in stored order whose rectangle does. The tile returned
  is the hovered one of \<open>draw\<close> whenever \<open>draw\<close> reaches its hit test, and \<open>mousePressed\<close>
  opens its page whatever \<open>loading\<close> and \<open>errMsg\<close> are, since it tests neither. On a
  laid-out grid, of any canvas and any tile count, no tile is returned at the origin.
\<close>

theorem unplaced_tile_hit_at_origin:
  assumes "k < length (items s)"
    and "item_x (items s ! k) = 0" and "item_y (items s ! k) = 0"
    and "item_w (items s ! k) = 0" and "item_h (items s ! k) = 0"
  shows "(0, 0) \<in> rect (items s ! k) \<and>
         (\<exists>m \<le> k. getHoveredItem s 0 0 = Some (items s ! m) \<and>
            (0, 0) \<in> rect (items s ! m) \<and>
            (\<forall>j < m. (0, 0) \<notin> rect (items s ! j)) \<and>
            ((\<forall>j < k. (0, 0) \<notin> rect (items s ! j)) \<longrightarrow> m = k) \<and>
            (\<forall>l e. mousePressed to_string (s\<lparr>loading := l, errMsg := e\<rparr>) 0 0 =
                     Some (''https://www.metmuseum.org/art/collection/search/'' @
                           to_string (objectID (items s ! m)))) \<and>
            (\<not> loading s \<and> errMsg s = None \<longrightarrow>
               draw s 0 0 = Grid (items s) (Some (items s ! m)))) \<and>
         getHoveredItem (layoutGrid g) 0 0 = None \<and>
         (\<forall>i < length picked.
            item_x (items (fst (preload_loop net picked 0 (s0\<lparr>items := []\<rparr>) w)) ! i) = 0 \<and>
            item_y (items (fst (preload_loop net picked 0 (s0\<lparr>items := []\<rparr>) w)) ! i) = 0 \<and>
            item_w (items (fst (preload_loop net picked 0 (s0\<lparr>items := []\<rparr>) w)) ! i) = 0 \<and>
            item_h (items (fst (preload_loop net picked 0 (s0\<lparr>items := []\<rparr>) w)) ! i) = 0)"
proof (intro conjI)
  show hit: "(0, 0) \<in> rect (items s ! k)" using assms(2-5) by (simp add: rect_def)
  with assms(1) have "\<exists>it \<in> set (items s). (0, 0) \<in> rect it" by (meson nth_mem)
  then have "find (\<lambda>it. (0, 0) \<in> rect it) (items s) \<noteq> None"
    by (auto simp add: find_None_iff)
  then obtain t where t: "find (\<lambda>it. (0, 0) \<in> rect it) (items s) = Some t" by blast
  then obtain m where m: "m < length (items s)" "(0, 0) \<in> rect (items s ! m)"
      "t = items s ! m" "\<forall>j < m. (0, 0) \<notin> rect (items s ! j)"
    unfolding find_Some_iff by blast
  have mk: "m \<le> k" using m(4) hit by (meson not_le)
  have first: "m = k" if "\<forall>j < k. (0, 0) \<notin> rect (items s ! j)"
    using that m(2) mk by (meson le_neq_implies_less)
  have g: "getHoveredItem s 0 0 = Some (items s ! m)"
    by (simp add: getHoveredItem_def hover_scan_find t m(3))
  have click: "mousePressed to_string (s\<lparr>loading := l, errMsg := e\<rparr>) 0 0 =
          Some (''https://www.metmuseum.org/art/collection/search/'' @
                to_string (objectID (items s ! m)))"
    for l e
    unfolding mousePressed_ignores_phase by (simp add: mousePressed_def g)
  have hover: "draw s 0 0 = Grid (items s) (Some (items s ! m))"
    if "\<not> loading s \<and> errMsg s = None"
    using that assms(1) by (auto simp add: draw_def g)
  from mk g m(2,4) first click hover
  show "\<exists>m \<le> k. getHoveredItem s 0 0 = Some (items s ! m) \<and>
            (0, 0) \<in> rect (items s ! m) \<and>
            (\<forall>j < m. (0, 0) \<notin> rect (items s ! j)) \<and>
            ((\<forall>j < k. (0, 0) \<notin> rect (items s ! j)) \<longrightarrow> m = k) \<and>
            (\<forall>l e. mousePressed to_string (s\<lparr>loading := l, errMsg := e\<rparr>) 0 0 =
                     Some (''https://www.metmuseum.org/art/collection/search/'' @
                           to_string (objectID (items s ! m)))) \<and>
            (\<not> loading s \<and> errMsg s = None \<longrightarrow>
               draw s 0 0 = Grid (items s) (Some (items s ! m)))"
    by blast
  show "getHoveredItem (layoutGrid g) 0 0 = None" by (rule origin_outside_grid)
  show "\<forall>i < length picked.
            item_x (items (fst (preload_loop net picked 0 (s0\<lparr>items := []\<rparr>) w)) ! i) = 0 \<and>
            item_y (items (fst (preload_loop net picked 0 (s0\<lparr>items := []\<rparr>) w)) ! i) = 0 \<and>
            item_w (items (fst (preload_loop net picked 0 (s0\<lparr>items := []\<rparr>) w)) ! i) = 0 \<and>
            item_h (items (fst (preload_loop net picked 0 (s0\<lparr>items := []\<rparr>) w)) ! i) = 0"
    by (simp add: preload_loop_nth new_item_def)
qed

text \<open>
  Two tiles as the preload loop pushes them: at the origin the first is returned, hovered and
  opened by a click while \<open>loading\<close> is set; once laid out, none is returned there.
\<close>

theorem unplaced_tile_hit_at_origin_witness:
  "(1::nat) < length (items (demo_sketch 2)) \<and>
   item_x (items (demo_sketch 2) ! 1) = 0 \<and> item_y (items (demo_sketch 2) ! 1) = 0 \<and>
   item_w (items (demo_sketch 2) ! 1) = 0 \<and> item_h (items (demo_sketch 2) ! 1) = 0 \<and>
   getHoveredItem (demo_sketch 2) 0 0 = Some (items (demo_sketch 2) ! 0) \<and>
   mousePressed demo_to_string ((demo_sketch 2)\<lparr>loading := True, errMsg := None\<rparr>) 0 0 =
     Some ''https://www.metmuseum.org/art/collection/search/0'' \<and>
   draw (demo_sketch 2) 0 0 = Grid (items (demo_sketch 2)) (Some (items (demo_sketch 2) ! 0)) \<and>
   getHoveredItem (layoutGrid (demo_sketch 2)) 0 0 = None \<and>
   item_w (items (fst (preload_loop (demo_net demo_answer) demo_picked 0
     ((demo_sketch 0)\<lparr>items := []\<rparr>) 0)) ! 2) = 0"
proof -
  have h: "(1::nat) < length (items (demo_sketch 2))"
    "item_x (items (demo_sketch 2) ! 1) = 0" "item_y (items (demo_sketch 2) ! 1) = 0"
    "item_w (items (demo_sketch 2) ! 1) = 0" "item_h (items (demo_sketch 2) ! 1) = 0"
    by (simp_all add: demo_sketch_def upt_rec blank_item_def new_item_def)
  have z: "(0, 0) \<in> rect (items (demo_sketch 2) ! 0)"
    by (simp add: rect_def demo_sketch_def upt_rec blank_item_def new_item_def)
  have p: "\<not> loading (demo_sketch 2) \<and> errMsg (demo_sketch 2) = None"
    by (simp add: demo_sketch_def)
  have n: "(2::nat) < length demo_picked" by (simp add: demo_picked_def)
  have i: "objectID (items (demo_sketch 2) ! 0) = Id_number 0"
    by (simp add: demo_sketch_def upt_rec blank_item_def new_item_def)
  have d: "demo_to_string (Id_number 0) = ''0''"
    by (simp add: demo_to_string_def string_of_nat.simps digit_char_def)
  note t = unplaced_tile_hit_at_origin [OF h, where to_string = demo_to_string
      and g = "demo_sketch 2" and picked = demo_picked and net = "demo_net demo_answer"
      and ?s0.0 = "demo_sketch 0" and w = 0]
  from t obtain m where m: "getHoveredItem (demo_sketch 2) 0 0 = Some (items (demo_sketch 2) ! m)"
    "\<forall>j < m. (0, 0) \<notin> rect (items (demo_sketch 2) ! j)"
    "\<forall>l e. mousePressed demo_to_string ((demo_sketch 2)\<lparr>loading := l, errMsg := e\<rparr>) 0 0 =
             Some (''https://www.metmuseum.org/art/collection/search/'' @
                   demo_to_string (objectID (items (demo_sketch 2) ! m)))"
    "\<not> loading (demo_sketch 2) \<and> errMsg (demo_sketch 2) = None \<longrightarrow>
       draw (demo_sketch 2) 0 0 = Grid (items (demo_sketch 2)) (Some (items (demo_sketch 2) ! m))"
    by blast
  from m(2) z have m0: "m = 0" by (cases m) auto
  from t n have pre: "item_w (items (fst (preload_loop (demo_net demo_answer) demo_picked 0
     ((demo_sketch 0)\<lparr>items := []\<rparr>) 0)) ! 2) = 0" by blast
  from t have out: "getHoveredItem (layoutGrid (demo_sketch 2)) 0 0 = None" by blast
  have click: "mousePressed demo_to_string ((demo_sketch 2)\<lparr>loading := True, errMsg := None\<rparr>) 0 0 =
     Some ''https://www.metmuseum.org/art/collection/search/0''"
    using m(3) by (simp add: m0 i d)
  from h m(1) m(4) p click out pre show ?thesis unfolding m0 by blast
qed

section \<open>The grid a search lays out\<close>

lemma rows_le_3: "n \<le> 18 \<Longrightarrow> \<lceil>rat_of_nat n / 6\<rceil> \<le> 3"
  by (simp add: ceiling_le_iff)

lemma layoutGrid_tile_in_canvas:
  assumes "width s = 900" and "height s = 560"
    and "length (items s) \<le> MAX_ITEMS" and "i < length (items s)"
  shows "0 < item_w (items (layoutGrid s) ! i)"
    and "0 < item_h (items (layoutGrid s) ! i)"
    and "PAD \<le> item_x (items (layoutGrid s) ! i)"
    and "item_x (items (layoutGrid s) ! i) + item_w (items (layoutGrid s) ! i) \<le> width s - PAD"
    and "PAD \<le> item_y (items (layoutGrid s) ! i)"
    and "item_y (items (layoutGrid s) ! i) + item_h (items (layoutGrid s) ! i) \<le> height s - PAD"
proof -
  let ?r = "\<lceil>rat_of_nat (length (items s)) / 6\<rceil>"
  from assms(4) have one: "1 \<le> length (items s)" by simp
  from assms(3) have "?r \<le> 3" unfolding MAX_ITEMS_def by (rule rows_le_3)
  then have r: "1 \<le> ?r" "?r \<le> 52" using rows_ge_1 [OF one] by simp_all
  have row: "0 \<le> int (i div 6)" "int (i div 6) < ?r" using assms(4) by (simp_all add: row_less_rows)
  note rowfacts = tile_row_in_canvas [OF r row]
  have col: "i mod 6 < 6" by simp
  note colfacts = tile_col_in_canvas [OF col]
  have t: "items (layoutGrid s) ! i =
      place 6 135 ((530 - 10 * rat_of_int ?r) / rat_of_int ?r) i (items s ! i)"
    using assms(1,2,4) by (simp add: nth_layoutGrid)
  show "0 < item_w (items (layoutGrid s) ! i)" by (simp add: t place_def)
  show "0 < item_h (items (layoutGrid s) ! i)" using rowfacts(1) by (simp add: t place_def)
  show "PAD \<le> item_x (items (layoutGrid s) ! i)"
    using colfacts(1) by (simp add: t place_def PAD_def GAP_def)
  show "item_x (items (layoutGrid s) ! i) + item_w (items (layoutGrid s) ! i) \<le> width s - PAD"
    using colfacts(2) assms(1) by (simp add: t place_def PAD_def GAP_def)
  show "PAD \<le> item_y (items (layoutGrid s) ! i)"
    using rowfacts(2) by (simp add: t place_def PAD_def GAP_def floor_div_cols)
  show "item_y (items (layoutGrid s) ! i) + item_h (items (layoutGrid s) ! i) \<le> height s - PAD"
    using rowfacts(3) assms(2) by (simp add: t place_def PAD_def GAP_def floor_div_cols)
qed

lemma preload_loop_canvas:
  "width (fst (preload_loop net picked i s w)) = width s \<and>
   height (fst (preload_loop net picked i s w)) = height s"
proof (induction net picked i s w rule: preload_loop.induct)
  case (1 net picked i s w)
  show ?case
  proof (cases "i < length picked")
    case True
    obtain im w' where l: "loadP5Image net (imageUrl (picked ! i)) w = (im, w')"
      by (cases "loadP5Image net (imageUrl (picked ! i)) w")
    let ?s' = "setStatus (''loading thumbnails'' @ ellipsis @ '' '' @ string_of_nat (i + 1) @
                 ''/'' @ string_of_nat (length picked))
                 (s\<lparr>items := items s @ [new_item (picked ! i) im]\<rparr>)"
    have step: "preload_loop net picked i s w = preload_loop net picked (i + 1) ?s' w'"
      using True l by (subst preload_loop.simps) (simp add: Let_def)
    have "width (fst (preload_loop net picked (i + 1) ?s' w')) = width ?s' \<and>
          height (fst (preload_loop net picked (i + 1) ?s' w')) = height ?s'"
      by (rule "1.IH" [OF True refl l [symmetric]])
    then show ?thesis by (simp add: step)
  next
    case False
    then show ?thesis by (subst (1 2) preload_loop.simps) simp
  qed
qed

lemma length_picked: "length (fst (fetch_loop net ids 0 [] w)) \<le> MAX_ITEMS"
  using fetch_loop_accepts [of 0 ids net "[]" w] by simp

lemma length_preloaded:
  "length (items (fst (preload_loop net picked 0 (s\<lparr>items := []\<rparr>) w))) = length picked"
  using preload_loop_items [of 0 picked net "s\<lparr>items := []\<rparr>" w]
  by (simp add: length_loaded_in_order)

lemma searchMet_lays_out:
  "items (fst (searchMet net query s w)) = [] \<or>
   (\<exists>g. width g = width s \<and> height g = height s \<and>
        1 \<le> length (items g) \<and> length (items g) \<le> MAX_ITEMS \<and>
        items (fst (searchMet net query s w)) = items (layoutGrid g))"
proof -
  let ?s0 = "search_begin query s"
  have s0: "items ?s0 = []" "width ?s0 = width s" "height ?s0 = height s"
    by (simp_all add: search_begin_def)
  obtain r w1 where f: "fetch_search net query w = (r, w1)" by (cases "fetch_search net query w")
  show ?thesis
  proof (cases "search_step_fails r")
    case True
    with f have "search_step_fails (fst (fetch_search net query w))" by simp
    from search_run_fails [OF this, of ?s0] obtain msg where
      "fst (searchMet net query s w) = on_error msg ?s0" unfolding searchMet_def by blast
    then show ?thesis by (simp add: on_error_fields s0)
  next
    case False
    then obtain st json where r: "r = Response True st (Inr json)"
      by (cases r rule: search_step_fails.cases) auto
    define ids where "ids = (case objectIDs json of None \<Rightarrow> [] | Some l \<Rightarrow> l)"
    show ?thesis
    proof (cases "ids = []")
      case True
      then show ?thesis
        by (simp add: searchMet_def search_run_def f r ids_def [symmetric] s0)
    next
      case ids: False
      define s1 where "s1 = setStatus (''found '' @ string_of_nat (length ids) @
                                      '' ids. fetching details + thumbnails'' @ ellipsis) ?s0"
      obtain picked w2 where p: "fetch_loop net ids 0 [] w1 = (picked, w2)"
        by (cases "fetch_loop net ids 0 [] w1")
      have plen: "length picked \<le> MAX_ITEMS" using length_picked [of net ids w1] p by simp
      show ?thesis
      proof (cases "picked = []")
        case True
        then show ?thesis
          using ids by (simp add: searchMet_def search_run_def f r ids_def [symmetric] p s0 Let_def)
      next
        case picked: False
        obtain s2 w3 where l: "preload_loop net picked 0 (s1\<lparr>items := []\<rparr>) w2 = (s2, w3)"
          by (cases "preload_loop net picked 0 (s1\<lparr>items := []\<rparr>) w2")
        have s2: "width s2 = width s" "height s2 = height s" "length (items s2) = length picked"
          using preload_loop_canvas [of net picked 0 "s1\<lparr>items := []\<rparr>" w2]
            length_preloaded [of net picked s1 w2] l
          by (simp_all add: s1_def s0)
        have "items (fst (searchMet net query s w)) = items (layoutGrid s2)"
          using ids picked l [unfolded s1_def]
          by (simp add: searchMet_def search_run_def f r ids_def [symmetric] p Let_def)
        moreover have "1 \<le> length (items s2)" using picked s2(3) by (cases picked) auto
        ultimately show ?thesis using s2 plen by auto
      qed
    qed
  qed
qed

text \<open>
  Claim C2, amended. On the 900 by 560 canvas, for every tile count from 1 to
  \<open>MAX_ITEMS = 18\<close>, \<open>layoutGrid\<close> yields as many rectangles as there are tiles, each of
  positive width and height, each inside \<open>[PAD, width - PAD] \<times> [PAD, height - PAD]\<close>. These
  are the counts the sketch lays out: whatever the network and the image loader do,
  \<open>searchMet\<close> ends with at most \<open>MAX_ITEMS\<close> tiles, each of them such a rectangle.
\<close>

theorem layoutGrid_within_canvas:
  assumes "width s = 900" and "height s = 560"
  shows "(1 \<le> length (items s) \<and> length (items s) \<le> MAX_ITEMS \<longrightarrow>
           length (items (layoutGrid s)) = length (items s) \<and>
           (\<forall>i < length (items s).
              0 < item_w (items (layoutGrid s) ! i) \<and>
              0 < item_h (items (layoutGrid s) ! i) \<and>
              PAD \<le> item_x (items (layoutGrid s) ! i) \<and>
              item_x (items (layoutGrid s) ! i) + item_w (items (layoutGrid s) ! i)
                \<le> width s - PAD \<and>
              PAD \<le> item_y (items (layoutGrid s) ! i) \<and>
              item_y (items (layoutGrid s) ! i) + item_h (items (layoutGrid s) ! i)
                \<le> height s - PAD)) \<and>
         length (items (fst (searchMet net query s w))) \<le> MAX_ITEMS \<and>
         (\<forall>i < length (items (fst (searchMet net query s w))).
            0 < item_w (items (fst (searchMet net query s w)) ! i) \<and>
            0 < item_h (items (fst (searchMet net query s w)) ! i) \<and>
            PAD \<le> item_x (items (fst (searchMet net query s w)) ! i) \<and>
            item_x (items (fst (searchMet net query s w)) ! i) +
              item_w (items (fst (searchMet net query s w)) ! i) \<le> width s - PAD \<and>
            PAD \<le> item_y (items (fst (searchMet net query s w)) ! i) \<and>
            item_y (items (fst (searchMet net query s w)) ! i) +
              item_h (items (fst (searchMet net query s w)) ! i) \<le> height s - PAD)"
proof (intro conjI impI)
  assume "1 \<le> length (items s) \<and> length (items s) \<le> MAX_ITEMS"
  then have n: "length (items s) \<le> MAX_ITEMS" by simp
  show "length (items (layoutGrid s)) = length (items s)" by (rule length_layoutGrid)
  show "\<forall>i < length (items s).
              0 < item_w (items (layoutGrid s) ! i) \<and>
              0 < item_h (items (layoutGrid s) ! i) \<and>
              PAD \<le> item_x (items (layoutGrid s) ! i) \<and>
              item_x (items (layoutGrid s) ! i) + item_w (items (layoutGrid s) ! i)
                \<le> width s - PAD \<and>
              PAD \<le> item_y (items (layoutGrid s) ! i) \<and>
              item_y (items (layoutGrid s) ! i) + item_h (items (layoutGrid s) ! i)
                \<le> height s - PAD"
    using layoutGrid_tile_in_canvas [OF assms n] by blast
next
  let ?tiles = "items (fst (searchMet net query s w))"
  from searchMet_lays_out [of net query s w] consider
    "?tiles = []" |
    g where "width g = width s" "height g = height s" "1 \<le> length (items g)"
      "length (items g) \<le> MAX_ITEMS" "?tiles = items (layoutGrid g)"
    by blast
  then have "length ?tiles \<le> MAX_ITEMS \<and>
         (\<forall>i < length ?tiles.
            0 < item_w (?tiles ! i) \<and> 0 < item_h (?tiles ! i) \<and>
            PAD \<le> item_x (?tiles ! i) \<and>
            item_x (?tiles ! i) + item_w (?tiles ! i) \<le> width s - PAD \<and>
            PAD \<le> item_y (?tiles ! i) \<and>
            item_y (?tiles ! i) + item_h (?tiles ! i) \<le> height s - PAD)"
  proof cases
    case 1
    then show ?thesis by simp
  next
    case 2
    have w: "width g = 900" and h: "height g = 560" using 2(1,2) assms by simp_all
    have len: "length ?tiles = length (items g)" by (simp add: 2(5) length_layoutGrid)
    show ?thesis
      unfolding len unfolding 2(5) 2(1) [symmetric] 2(2) [symmetric]
      using layoutGrid_tile_in_canvas [OF w h 2(4)] 2(4) by blast
  qed
  then show "length ?tiles \<le> MAX_ITEMS"
    and "\<forall>i < length ?tiles.
            0 < item_w (?tiles ! i) \<and> 0 < item_h (?tiles ! i) \<and>
            PAD \<le> item_x (?tiles ! i) \<and>
            item_x (?tiles ! i) + item_w (?tiles ! i) \<le> width s - PAD \<and>
            PAD \<le> item_y (?tiles ! i) \<and>
            item_y (?tiles ! i) + item_h (?tiles ! i) \<le> height s - PAD"
    by blast+
qed

lemma searchMet_success:
  assumes "fetch_search net query w = (Response True st (Inr json), w1)"
    and "objectIDs json = Some ids" and "ids \<noteq> []"
    and "fetch_loop net ids 0 [] w1 = (picked, w2)" and "picked \<noteq> []"
  shows "length (items (fst (searchMet net query s w))) = length picked"
proof -
  define s1 where "s1 = setStatus (''found '' @ string_of_nat (length ids) @
                          '' ids. fetching details + thumbnails'' @ ellipsis)
                          (search_begin query s)"
  obtain s2 w3 where l: "preload_loop net picked 0 (s1\<lparr>items := []\<rparr>) w2 = (s2, w3)"
    by (cases "preload_loop net picked 0 (s1\<lparr>items := []\<rparr>) w2")
  have "length (items s2) = length picked"
    using length_preloaded [of net picked s1 w2] l by simp
  moreover have "items (fst (searchMet net query s w)) = items (layoutGrid s2)"
    using assms(3,5) l [unfolded s1_def]
    by (simp add: searchMet_def search_run_def assms(1,2,4) Let_def)
  ultimately show ?thesis by (simp add: length_layoutGrid)
qed

lemma demo_search_tiles:
  "length (items (fst (searchMet (demo_net demo_answer) ''cat'' (demo_sketch 18) 0))) = 3"
proof -
  have f: "fetch_search (demo_net demo_answer) ''cat'' 0 =
             (Response True 200 (Inr \<lparr>objectIDs = Some [1, 2, 3, 4, 5]\<rparr>), 1)"
    by (simp add: demo_net_def demo_answer_def)
  have j: "objectIDs \<lparr>objectIDs = Some [1, 2, 3, 4, 5]\<rparr> = Some [1, 2, 3, 4, 5]" by simp
  have p: "fetch_loop (demo_net demo_answer) [1, 2, 3, 4, 5] 0 [] 1 = (demo_picked, 6)"
    by (simp add: fetch_loop.simps fetchObject_def demo_net_def demo_record_def demo_picked_def
        or_else_def Let_def MAX_ITEMS_def string_of_nat.simps digit_char_def)
  have "length (items (fst (searchMet (demo_net demo_answer) ''cat'' (demo_sketch 18) 0))) =
          length demo_picked"
    by (rule searchMet_success [OF f j _ p]) (simp_all add: demo_picked_def)
  then show ?thesis by (simp add: demo_picked_def)
qed

text \<open>
  The last of 18 tiles, and the last of the three tiles of a search with five candidates.
\<close>

theorem layoutGrid_within_canvas_witness:
  "width (demo_sketch 18) = 900 \<and> height (demo_sketch 18) = 560 \<and>
   1 \<le> length (items (demo_sketch 18)) \<and> length (items (demo_sketch 18)) \<le> MAX_ITEMS \<and>
   length (items (layoutGrid (demo_sketch 18))) = 18 \<and>
   0 < item_w (items (layoutGrid (demo_sketch 18)) ! 17) \<and>
   0 < item_h (items (layoutGrid (demo_sketch 18)) ! 17) \<and>
   item_x (items (layoutGrid (demo_sketch 18)) ! 17) +
     item_w (items (layoutGrid (demo_sketch 18)) ! 17) \<le> 880 \<and>
   item_y (items (layoutGrid (demo_sketch 18)) ! 17) +
     item_h (items (layoutGrid (demo_sketch 18)) ! 17) \<le> 540 \<and>
   length (items (fst (searchMet (demo_net demo_answer) ''cat'' (demo_sketch 18) 0))) = 3 \<and>
   0 < item_h (items (fst (searchMet (demo_net demo_answer) ''cat'' (demo_sketch 18) 0)) ! 2) \<and>
   item_y (items (fst (searchMet (demo_net demo_answer) ''cat'' (demo_sketch 18) 0)) ! 2) +
     item_h (items (fst (searchMet (demo_net demo_answer) ''cat'' (demo_sketch 18) 0)) ! 2) \<le> 540"
proof -
  have h: "width (demo_sketch 18) = 900" "height (demo_sketch 18) = 560"
    by (simp_all add: demo_sketch_def)
  have n: "length (items (demo_sketch 18)) = 18" by (simp add: demo_sketch_def)
  note t = layoutGrid_within_canvas [OF h, of "demo_net demo_answer" "''cat''" 0]
  show ?thesis
    using t h by (simp add: n demo_search_tiles PAD_def MAX_ITEMS_def)
qed

end
